theory Spec2Isabelle
  imports Main
begin

section \<open>The data model of \<^verbatim>\<open>mt::ThreadSafeStack\<close>\<close>

text \<open>
  The class keeps one \<^verbatim>\<open>std::stack\<close> of \<^verbatim>\<open>std::shared_ptr<AdaptElem>\<close>, a mutex and a
  condition variable. A shared pointer is either null or the address of an \<^verbatim>\<open>AdaptElem\<close>
  object on the free store; copying a stack copies the pointers, so two stacks can hold
  the same object. The model therefore has an explicit store of element objects, and a
  handle is an optional address.

  Objects of the class are told apart by their address (\<^verbatim>\<open>this != &rhs\<close>), so the model
  keeps the member \<^verbatim>\<open>m_stack\<close> of every object in one table indexed by that address. The
  list of an object has the top of its \<^verbatim>\<open>std::stack\<close> first.

  Every member function runs its body while it holds the mutex of the object (both
  mutexes, for the two-object operations), so a call is modelled by the effect of that
  critical section. \<^verbatim>\<open>notify_one\<close> changes nothing a single thread can observe and has no
  counterpart in the state.
\<close>

type_synonym addr = nat

type_synonym obj = nat

type_synonym handle = "addr option"

record 'a world =
  m_stack :: "obj \<Rightarrow> handle list"
  heap :: "addr \<Rightarrow> 'a"
  next_addr :: addr
  capacity :: addr

text \<open>
  \<^verbatim>\<open>std::runtime_error\<close> carries the message of the throw statement, \<^verbatim>\<open>std::bad_alloc\<close>
  is what \<^verbatim>\<open>std::make_shared\<close> throws when the free store is exhausted, and
  \<open>Undefined_behaviour\<close> stands for the two things the language leaves undefined here:
  \<^verbatim>\<open>top()\<close> of an empty \<^verbatim>\<open>std::stack\<close> and dereferencing a null shared pointer.
\<close>

datatype fault = Runtime_error string | Bad_alloc | Undefined_behaviour

definition EmptyContainer :: fault where
  "EmptyContainer = Runtime_error ''The ThreadSafeStack is empty''"

subsection \<open>The free store and the element type\<close>

text \<open>
  \<^verbatim>\<open>std::make_shared<AdaptElem>(std::move(elem))\<close>: a new object at the next free address,
  holding the element, or \<^verbatim>\<open>std::bad_alloc\<close> when no address is left below the capacity
  of the store. Objects are never reclaimed in the model: reference counting only frees
  an object that no handle reaches. The store also holds the objects of the caller that
  are passed as output arguments. The memory that the container itself needs (to grow, or
  to be copied) is taken to be there, and the move operations of the element type are
  taken not to throw.
\<close>

definition make_shared :: "'a \<Rightarrow> 'a world \<Rightarrow> fault + (addr \<times> 'a world)" where
  "make_shared elem w =
     (if next_addr w < capacity w
      then Inr (next_addr w,
                w\<lparr>heap := (heap w)(next_addr w := elem), next_addr := Suc (next_addr w)\<rparr>)
      else Inl Bad_alloc)"

text \<open>
  \<^verbatim>\<open>elem = std::move(*p)\<close> runs the move assignment operator of the element type, a
  template parameter. Between two different objects the destination receives the value of
  the source, and what the source holds afterwards is up to the type: \<open>moved_from\<close>. When
  the destination is the source object itself the operator is called on one object, and
  what it leaves there is again up to the type: \<open>self_moved\<close>. For \<^verbatim>\<open>int\<close> both are the
  identity; \<^verbatim>\<open>std::string\<close> is left empty by both in the common implementations.
\<close>

record 'a elem_type =
  moved_from :: "'a \<Rightarrow> 'a"
  self_moved :: "'a \<Rightarrow> 'a"

definition move_assign :: "'a elem_type \<Rightarrow> addr \<Rightarrow> addr \<Rightarrow> (addr \<Rightarrow> 'a) \<Rightarrow> addr \<Rightarrow> 'a" where
  "move_assign T dst src h =
     (if dst = src then h(src := self_moved T (h src))
      else (h(src := moved_from T (h src)))(dst := h src))"

definition set_stack :: "obj \<Rightarrow> handle list \<Rightarrow> 'a world \<Rightarrow> 'a world" where
  "set_stack this st w = w\<lparr>m_stack := (m_stack w)(this := st)\<rparr>"

subsection \<open>Construction, assignment and swap\<close>

text \<open>\<^verbatim>\<open>ThreadSafeStack() = default\<close>: the new object holds an empty stack.\<close>

definition ThreadSafeStack :: "obj \<Rightarrow> 'a world \<Rightarrow> 'a world" where
  "ThreadSafeStack this w = set_stack this [] w"

text \<open>\<^verbatim>\<open>ThreadSafeStack(const ThreadSafeStack& rhs)\<close>: \<^verbatim>\<open>m_stack = rhs.m_stack\<close>.\<close>

definition ThreadSafeStack_copy :: "obj \<Rightarrow> obj \<Rightarrow> 'a world \<Rightarrow> 'a world" where
  "ThreadSafeStack_copy this rhs w = set_stack this (m_stack w rhs) w"

text \<open>
  \<^verbatim>\<open>ThreadSafeStack(ThreadSafeStack&& rhs)\<close>: \<^verbatim>\<open>m_stack = std::move(rhs.m_stack)\<close>. The
  container that was moved from is left empty, as the standard libraries leave it.
\<close>

definition ThreadSafeStack_move :: "obj \<Rightarrow> obj \<Rightarrow> 'a world \<Rightarrow> 'a world" where
  "ThreadSafeStack_move this rhs w = set_stack this (m_stack w rhs) (set_stack rhs [] w)"

text \<open>\<^verbatim>\<open>operator=(const ThreadSafeStack& rhs)\<close>.\<close>

definition assign_copy :: "obj \<Rightarrow> obj \<Rightarrow> 'a world \<Rightarrow> 'a world" where
  "assign_copy this rhs w =
     (if this \<noteq> rhs then set_stack this (m_stack w rhs) w else w)"

text \<open>\<^verbatim>\<open>operator=(ThreadSafeStack&& rhs)\<close>.\<close>

definition assign_move :: "obj \<Rightarrow> obj \<Rightarrow> 'a world \<Rightarrow> 'a world" where
  "assign_move this rhs w =
     (if this \<noteq> rhs then set_stack this (m_stack w rhs) (set_stack rhs [] w) else w)"

text \<open>The member \<^verbatim>\<open>swap(ThreadSafeStack& rhs)\<close>: \<^verbatim>\<open>std::swap(m_stack, rhs.m_stack)\<close>.\<close>

definition swap :: "obj \<Rightarrow> obj \<Rightarrow> 'a world \<Rightarrow> 'a world" where
  "swap this rhs w =
     (if this \<noteq> rhs
      then set_stack rhs (m_stack w this) (set_stack this (m_stack w rhs) w)
      else w)"

text \<open>The free function \<^verbatim>\<open>swap(lhs, rhs)\<close>: \<^verbatim>\<open>lhs.swap(rhs)\<close>.\<close>

definition swap_free :: "obj \<Rightarrow> obj \<Rightarrow> 'a world \<Rightarrow> 'a world" where
  "swap_free lhs rhs w = swap lhs rhs w"

subsection \<open>Insertion\<close>

text \<open>
  \<^verbatim>\<open>push(AdaptElem elem)\<close>: the handle is made first; an exception of \<^verbatim>\<open>make_shared\<close>
  leaves the function before the mutex is taken.
\<close>

definition push :: "obj \<Rightarrow> 'a \<Rightarrow> 'a world \<Rightarrow> (fault + unit) \<times> 'a world" where
  "push this elem w =
     (case make_shared elem w of
        Inl f \<Rightarrow> (Inl f, w)
      | Inr (data, w1) \<Rightarrow> (Inr (), set_stack this (Some data # m_stack w1 this) w1))"

subsection \<open>Removal\<close>

text \<open>
  \<^verbatim>\<open>m_condVar.wait(lock, [this] { return !m_stack.empty(); })\<close> is the loop
  \<^verbatim>\<open>while (!pred()) wait(lock);\<close>. With no other thread to push, an iteration changes
  nothing, so on an empty stack the loop never ends: the result \<open>None\<close>.
\<close>

partial_function (option) condVar_wait :: "obj \<Rightarrow> 'a world \<Rightarrow> 'a world option" where
  "condVar_wait this w = (if m_stack w this \<noteq> [] then Some w else condVar_wait this w)"

declare condVar_wait.simps [code]

text \<open>\<^verbatim>\<open>void waitAndPop(AdaptElem& elem)\<close>; \<open>elem\<close> is the address the reference is bound to.\<close>

definition waitAndPop_elem ::
  "'a elem_type \<Rightarrow> obj \<Rightarrow> addr \<Rightarrow> 'a world \<Rightarrow> ((fault + unit) \<times> 'a world) option" where
  "waitAndPop_elem T this elem w =
     (case condVar_wait this w of
        None \<Rightarrow> None
      | Some w1 \<Rightarrow>
          Some (case m_stack w1 this of
                  [] \<Rightarrow> (Inl Undefined_behaviour, w1)
                | None # rest \<Rightarrow> (Inl Undefined_behaviour, w1)
                | Some p # rest \<Rightarrow>
                    (Inr (), set_stack this rest
                               (w1\<lparr>heap := move_assign T elem p (heap w1)\<rparr>))))"

text \<open>\<^verbatim>\<open>std::shared_ptr<AdaptElem> waitAndPop()\<close>.\<close>

definition waitAndPop :: "obj \<Rightarrow> 'a world \<Rightarrow> ((fault + handle) \<times> 'a world) option" where
  "waitAndPop this w =
     (case condVar_wait this w of
        None \<Rightarrow> None
      | Some w1 \<Rightarrow>
          Some (case m_stack w1 this of
                  [] \<Rightarrow> (Inl Undefined_behaviour, w1)
                | res # rest \<Rightarrow> (Inr res, set_stack this rest w1)))"

text \<open>\<^verbatim>\<open>bool tryPop(AdaptElem& elem)\<close>.\<close>

definition tryPop_elem ::
  "'a elem_type \<Rightarrow> obj \<Rightarrow> addr \<Rightarrow> 'a world \<Rightarrow> (fault + bool) \<times> 'a world" where
  "tryPop_elem T this elem w =
     (case m_stack w this of
        [] \<Rightarrow> (Inr False, w)
      | None # rest \<Rightarrow> (Inl Undefined_behaviour, w)
      | Some p # rest \<Rightarrow>
          (Inr True, set_stack this rest (w\<lparr>heap := move_assign T elem p (heap w)\<rparr>)))"

text \<open>\<^verbatim>\<open>std::shared_ptr<AdaptElem> tryPop()\<close>; the empty handle is \<open>None\<close>.\<close>

definition tryPop :: "obj \<Rightarrow> 'a world \<Rightarrow> (fault + handle) \<times> 'a world" where
  "tryPop this w =
     (case m_stack w this of
        [] \<Rightarrow> (Inr None, w)
      | res # rest \<Rightarrow> (Inr res, set_stack this rest w))"

text \<open>\<^verbatim>\<open>std::shared_ptr<AdaptElem> pop()\<close>.\<close>

definition pop :: "obj \<Rightarrow> 'a world \<Rightarrow> (fault + handle) \<times> 'a world" where
  "pop this w =
     (case m_stack w this of
        [] \<Rightarrow> (Inl (Runtime_error ''The ThreadSafeStack is empty''), w)
      | res # rest \<Rightarrow> (Inr res, set_stack this rest w))"

text \<open>\<^verbatim>\<open>void pop(AdaptElem& elem)\<close>.\<close>

definition pop_elem ::
  "'a elem_type \<Rightarrow> obj \<Rightarrow> addr \<Rightarrow> 'a world \<Rightarrow> (fault + unit) \<times> 'a world" where
  "pop_elem T this elem w =
     (case m_stack w this of
        [] \<Rightarrow> (Inl (Runtime_error ''The ThreadSafeStack is empty''), w)
      | None # rest \<Rightarrow> (Inl Undefined_behaviour, w)
      | Some p # rest \<Rightarrow>
          (Inr (), set_stack this rest (w\<lparr>heap := move_assign T elem p (heap w)\<rparr>)))"

section \<open>Callers\<close>

text \<open>
  The six removal functions, as a caller picks one; the two-argument forms carry the
  address of the output argument.
\<close>

datatype removal =
  WaitAndPop_elem addr | WaitAndPop | TryPop_elem addr | TryPop | Pop | Pop_elem addr

fun out_loc :: "removal \<Rightarrow> addr option" where
  "out_loc (WaitAndPop_elem elem) = Some elem"
| "out_loc WaitAndPop = None"
| "out_loc (TryPop_elem elem) = Some elem"
| "out_loc TryPop = None"
| "out_loc Pop = None"
| "out_loc (Pop_elem elem) = Some elem"

text \<open>The object a handle owns, read in a given store; a null handle owns none.\<close>

definition deref :: "'a world \<Rightarrow> handle \<Rightarrow> 'a option" where
  "deref w h = (case h of None \<Rightarrow> None | Some a \<Rightarrow> Some (heap w a))"

text \<open>The elements of a stack, top first, as its handles give them.\<close>

definition elements :: "'a world \<Rightarrow> obj \<Rightarrow> 'a option list" where
  "elements w this = map (deref w) (m_stack w this)"

text \<open>
  One removal and the element it hands to the caller, read right after the call: the
  output argument of a call that returned (with \<^verbatim>\<open>true\<close>, for \<^verbatim>\<open>tryPop\<close>), or the object
  of the handle returned. A call that threw, returned \<^verbatim>\<open>false\<close> or returned the empty
  handle hands over nothing; a call that never returns has no result at all.
\<close>

fun run_removal ::
  "'a elem_type \<Rightarrow> obj \<Rightarrow> removal \<Rightarrow> 'a world \<Rightarrow> ('a option \<times> 'a world) option" where
  "run_removal T this (WaitAndPop_elem elem) w =
     (case waitAndPop_elem T this elem w of
        None \<Rightarrow> None
      | Some (Inr u, w') \<Rightarrow> Some (Some (heap w' elem), w')
      | Some (Inl f, w') \<Rightarrow> Some (None, w'))"
| "run_removal T this WaitAndPop w =
     (case waitAndPop this w of
        None \<Rightarrow> None
      | Some (Inr res, w') \<Rightarrow> Some (deref w' res, w')
      | Some (Inl f, w') \<Rightarrow> Some (None, w'))"
| "run_removal T this (TryPop_elem elem) w =
     (case tryPop_elem T this elem w of
        (Inr True, w') \<Rightarrow> Some (Some (heap w' elem), w')
      | (Inr False, w') \<Rightarrow> Some (None, w')
      | (Inl f, w') \<Rightarrow> Some (None, w'))"
| "run_removal T this TryPop w =
     (case tryPop this w of
        (Inr res, w') \<Rightarrow> Some (deref w' res, w')
      | (Inl f, w') \<Rightarrow> Some (None, w'))"
| "run_removal T this Pop w =
     (case pop this w of
        (Inr res, w') \<Rightarrow> Some (deref w' res, w')
      | (Inl f, w') \<Rightarrow> Some (None, w'))"
| "run_removal T this (Pop_elem elem) w =
     (case pop_elem T this elem w of
        (Inr u, w') \<Rightarrow> Some (Some (heap w' elem), w')
      | (Inl f, w') \<Rightarrow> Some (None, w'))"


text \<open>A thread that performs a list of removals in order and collects what each hands over.\<close>

fun run_removals ::
  "'a elem_type \<Rightarrow> obj \<Rightarrow> removal list \<Rightarrow> 'a world \<Rightarrow> ('a option list \<times> 'a world) option" where
  "run_removals T this [] w = Some ([], w)"
| "run_removals T this (r # rs) w =
     (case run_removal T this r w of
        None \<Rightarrow> None
      | Some (x, w') \<Rightarrow>
          (case run_removals T this rs w' of
             None \<Rightarrow> None
           | Some (xs, w'') \<Rightarrow> Some (x # xs, w'')))"


text \<open>Every operation of the class, and the store after a call of it that comes back.\<close>

datatype 'a operation =
  Construct obj
| Copy_construct obj obj
| Move_construct obj obj
| Assign_copy obj obj
| Assign_move obj obj
| Swap obj obj
| Swap_free obj obj
| Push obj 'a
| Remove obj removal

fun exec :: "'a elem_type \<Rightarrow> 'a operation \<Rightarrow> 'a world \<Rightarrow> 'a world option" where
  "exec T (Construct this) w = Some (ThreadSafeStack this w)"
| "exec T (Copy_construct this rhs) w = Some (ThreadSafeStack_copy this rhs w)"
| "exec T (Move_construct this rhs) w = Some (ThreadSafeStack_move this rhs w)"
| "exec T (Assign_copy this rhs) w = Some (assign_copy this rhs w)"
| "exec T (Assign_move this rhs) w = Some (assign_move this rhs w)"
| "exec T (Swap this rhs) w = Some (swap this rhs w)"
| "exec T (Swap_free lhs rhs) w = Some (swap_free lhs rhs w)"
| "exec T (Push this elem) w = Some (snd (push this elem w))"
| "exec T (Remove this r) w = map_option snd (run_removal T this r w)"

section \<open>Invariants\<close>

text \<open>No stack holds a null handle.\<close>

definition nonnull :: "'a world \<Rightarrow> bool" where
  "nonnull w = (\<forall>s. None \<notin> set (m_stack w s))"

text \<open>
  Every handle of every stack owns an object that \<^verbatim>\<open>make_shared\<close> has made, and no stack
  holds the same object twice.
\<close>

definition sound :: "'a world \<Rightarrow> bool" where
  "sound w = (\<forall>s. distinct (m_stack w s) \<and>
                  (\<forall>h \<in> set (m_stack w s). \<exists>a. h = Some a \<and> a < next_addr w))"

section \<open>Example element types and states\<close>

text \<open>\<^verbatim>\<open>int\<close>: a move assignment copies the value and leaves the source as it was.\<close>

definition int_type :: "int elem_type" where
  "int_type = \<lparr>moved_from = (\<lambda>v. v), self_moved = (\<lambda>v. v)\<rparr>"

text \<open>
  \<^verbatim>\<open>std::string\<close>: a move assignment leaves the source empty, also when the source is the
  destination.
\<close>

definition string_type :: "string elem_type" where
  "string_type = \<lparr>moved_from = (\<lambda>v. []), self_moved = (\<lambda>v. [])\<rparr>"

text \<open>A store with room for four elements in which every stack is empty.\<close>

definition fresh_world :: "int world" where
  "fresh_world = \<lparr>m_stack = (\<lambda>s. []), heap = (\<lambda>a. 0), next_addr = 0, capacity = 4\<rparr>"

text \<open>
  The store after \<^verbatim>\<open>push(10); push(20)\<close> on the stack at address 0, with no room left
  for a third element.
\<close>

definition full_world :: "int world" where
  "full_world =
     \<lparr>m_stack = (\<lambda>s. [])(0 := [Some 1, Some 0]),
      heap = (\<lambda>a. 0)(0 := 10, 1 := 20),
      next_addr = 2, capacity = 2\<rparr>"

text \<open>The same with strings: \<^verbatim>\<open>push("ab"); push("cd")\<close> on the stack at address 0.\<close>

definition string_world :: "string world" where
  "string_world =
     \<lparr>m_stack = (\<lambda>s. [])(0 := [Some 1, Some 0]),
      heap = (\<lambda>a. [])(0 := ''ab'', 1 := ''cd''),
      next_addr = 2, capacity = 2\<rparr>"

section \<open>Basic facts\<close>

lemma m_stack_set_stack [simp]:
  "m_stack (set_stack this st w) s = (if s = this then st else m_stack w s)"
  by (simp add: set_stack_def)

lemma heap_set_stack [simp]: "heap (set_stack this st w) = heap w"
  by (simp add: set_stack_def)

lemma next_addr_set_stack [simp]: "next_addr (set_stack this st w) = next_addr w"
  by (simp add: set_stack_def)

lemma capacity_set_stack [simp]: "capacity (set_stack this st w) = capacity w"
  by (simp add: set_stack_def)

lemma set_stack_same [simp]: "set_stack this (m_stack w this) w = w"
  by (simp add: set_stack_def)

text \<open>The wait returns at once on a stack that holds an element, and never on an empty one.\<close>

lemma condVar_wait_nonempty: "m_stack w this \<noteq> [] \<Longrightarrow> condVar_wait this w = Some w"
  by (subst condVar_wait.simps) simp

lemma condVar_wait_Some:
  assumes "condVar_wait this w = Some w'"
  shows "m_stack w this \<noteq> [] \<and> w' = w"
proof (rule condVar_wait.raw_induct
    [where P = "\<lambda>s v v'. m_stack v s \<noteq> [] \<and> v' = v", OF _ assms])
  fix f :: "obj \<Rightarrow> 'a world \<Rightarrow> 'a world option" and s v v'
  assume ih: "\<And>a b y. f a b = Some y \<Longrightarrow> m_stack b a \<noteq> [] \<and> y = b"
    and step: "(if m_stack v s \<noteq> [] then Some v else f s v) = Some v'"
  show "m_stack v s \<noteq> [] \<and> v' = v"
  proof (cases "m_stack v s = []")
    case True
    with step have "f s v = Some v'" by simp
    from ih [OF this] True show ?thesis by simp
  next
    case False
    with step show ?thesis by simp
  qed
qed

lemma condVar_wait_empty: "m_stack w this = [] \<Longrightarrow> condVar_wait this w = None"
  using condVar_wait_Some [of this w] by (cases "condVar_wait this w") auto

lemma condVar_wait_eq:
  "condVar_wait this w = (if m_stack w this \<noteq> [] then Some w else None)"
  by (simp add: condVar_wait_nonempty condVar_wait_empty)

text \<open>On an empty stack, with no other thread, neither form of \<^verbatim>\<open>waitAndPop\<close> returns.\<close>

lemma waitAndPop_empty_blocks:
  "m_stack w this = [] \<Longrightarrow>
     waitAndPop this w = None \<and> waitAndPop_elem T this elem w = None"
  by (simp add: waitAndPop_def waitAndPop_elem_def condVar_wait_eq)

section \<open>Removal from a stack that holds an element\<close>

text \<open>
  All six removal functions do the same on a stack whose top handle owns an object: they
  drop the handle, and the forms with an output argument move-assign the object to the
  argument first. What the caller is handed is the value of the object, unless the output
  argument is that very object: then it is what the self-move has left.
\<close>

lemma deref_set_stack [simp]: "deref (set_stack this st w) h = deref w h"
  by (simp add: deref_def split: option.splits)

lemma elements_set_stack [simp]:
  "elements (set_stack this st w) s = (if s = this then map (deref w) st else elements w s)"
  by (simp add: elements_def)

lemma run_removal_top:
  assumes "m_stack w this = Some p # rest"
  shows "run_removal T this r w =
           Some (Some (if out_loc r = Some p then self_moved T (heap w p) else heap w p),
                 set_stack this rest
                   (w\<lparr>heap := (case out_loc r of
                                  None \<Rightarrow> heap w
                                | Some elem \<Rightarrow> move_assign T elem p (heap w))\<rparr>))"
  using assms
  by (cases r)
    (simp_all add: waitAndPop_elem_def waitAndPop_def tryPop_elem_def tryPop_def pop_def
      pop_elem_def condVar_wait_eq deref_def move_assign_def)

lemma move_assign_other:
  "a \<noteq> dst \<Longrightarrow> a \<noteq> src \<Longrightarrow> move_assign T dst src h a = h a"
  by (simp add: move_assign_def)

lemma move_assign_dst:
  "move_assign T dst src h dst = (if dst = src then self_moved T (h src) else h src)"
  by (simp add: move_assign_def)

section \<open>The non-null invariant, operation by operation\<close>

lemma nonnull_heap_update [simp]: "nonnull (w\<lparr>heap := h\<rparr>) = nonnull w"
  by (simp add: nonnull_def)

lemma nonnull_set_stack:
  "nonnull w \<Longrightarrow> None \<notin> set st \<Longrightarrow> nonnull (set_stack this st w)"
  by (simp add: nonnull_def)

lemma nonnull_stack: "nonnull w \<Longrightarrow> None \<notin> set (m_stack w s)"
  by (simp add: nonnull_def)

lemma nonnull_tail:
  "nonnull w \<Longrightarrow> m_stack w this = h # rest \<Longrightarrow> nonnull (set_stack this rest w)"
  using nonnull_stack [of w this] by (auto intro: nonnull_set_stack)

lemma nonnull_push: "nonnull w \<Longrightarrow> nonnull (snd (push this elem w))"
  by (auto simp: push_def make_shared_def nonnull_def)

lemma nonnull_waitAndPop_elem:
  "nonnull w \<Longrightarrow> waitAndPop_elem T this elem w = Some (r, w') \<Longrightarrow> nonnull w'"
  by (auto simp: waitAndPop_elem_def condVar_wait_eq nonnull_tail
      split: if_splits list.splits option.splits)

lemma nonnull_waitAndPop:
  "nonnull w \<Longrightarrow> waitAndPop this w = Some (r, w') \<Longrightarrow> nonnull w'"
  by (auto simp: waitAndPop_def condVar_wait_eq nonnull_tail
      split: if_splits list.splits option.splits)

lemma nonnull_tryPop_elem:
  "nonnull w \<Longrightarrow> nonnull (snd (tryPop_elem T this elem w))"
  by (auto simp: tryPop_elem_def nonnull_tail split: list.splits option.splits)

lemma nonnull_tryPop: "nonnull w \<Longrightarrow> nonnull (snd (tryPop this w))"
  by (auto simp: tryPop_def nonnull_tail split: list.splits)

lemma nonnull_pop: "nonnull w \<Longrightarrow> nonnull (snd (pop this w))"
  by (auto simp: pop_def nonnull_tail split: list.splits)

lemma nonnull_pop_elem: "nonnull w \<Longrightarrow> nonnull (snd (pop_elem T this elem w))"
  by (auto simp: pop_elem_def nonnull_tail split: list.splits option.splits)

lemma nonnull_run_removal:
  assumes "nonnull w" and "run_removal T this r w = Some (x, w')"
  shows "nonnull w'"
proof (cases r)
  case (WaitAndPop_elem elem)
  with assms show ?thesis
    by (auto split: option.splits sum.splits dest: nonnull_waitAndPop_elem)
next
  case WaitAndPop
  with assms show ?thesis
    by (auto split: option.splits sum.splits dest: nonnull_waitAndPop)
next
  case (TryPop_elem elem)
  with assms nonnull_tryPop_elem [of w T this elem] show ?thesis
    by (auto split: prod.splits sum.splits bool.splits)
next
  case TryPop
  with assms nonnull_tryPop [of w this] show ?thesis
    by (auto split: prod.splits sum.splits)
next
  case Pop
  with assms nonnull_pop [of w this] show ?thesis
    by (auto split: prod.splits sum.splits)
next
  case (Pop_elem elem)
  with assms nonnull_pop_elem [of w T this elem] show ?thesis
    by (auto split: prod.splits sum.splits)
qed

lemma nonnull_construct: "nonnull w \<Longrightarrow> nonnull (ThreadSafeStack this w)"
  by (simp add: ThreadSafeStack_def nonnull_set_stack)

lemma nonnull_copy_construct: "nonnull w \<Longrightarrow> nonnull (ThreadSafeStack_copy this rhs w)"
  by (simp add: ThreadSafeStack_copy_def nonnull_set_stack nonnull_stack)

lemma nonnull_move_construct: "nonnull w \<Longrightarrow> nonnull (ThreadSafeStack_move this rhs w)"
  by (simp add: ThreadSafeStack_move_def nonnull_set_stack nonnull_stack)

lemma nonnull_assign_copy: "nonnull w \<Longrightarrow> nonnull (assign_copy this rhs w)"
  by (simp add: assign_copy_def nonnull_set_stack nonnull_stack)

lemma nonnull_assign_move: "nonnull w \<Longrightarrow> nonnull (assign_move this rhs w)"
  by (simp add: assign_move_def nonnull_set_stack nonnull_stack)

lemma nonnull_swap: "nonnull w \<Longrightarrow> nonnull (swap this rhs w)"
  by (simp add: swap_def nonnull_set_stack nonnull_stack)

lemma nonnull_exec:
  assumes "nonnull w" and "exec T op w = Some w'"
  shows "nonnull w'"
proof (cases op)
  case (Remove this r)
  with assms show ?thesis by (auto dest: nonnull_run_removal)
next
  case (Push this elem)
  with assms show ?thesis by (auto intro: nonnull_push)
qed (use assms in \<open>auto simp: nonnull_construct nonnull_copy_construct
      nonnull_move_construct nonnull_assign_copy nonnull_assign_move nonnull_swap
      swap_free_def\<close>)

section \<open>Handles own distinct, allocated objects\<close>

lemma sound_nonnull: "sound w \<Longrightarrow> nonnull w"
  by (auto simp: sound_def nonnull_def)

lemma sound_top:
  assumes "sound w" and "m_stack w this \<noteq> []"
  shows "\<exists>p rest. m_stack w this = Some p # rest \<and> Some p \<notin> set rest"
proof -
  from assms(2) obtain h rest where st: "m_stack w this = h # rest"
    by (cases "m_stack w this") auto
  from assms(1) have "distinct (m_stack w this)"
    and "\<forall>h \<in> set (m_stack w this). \<exists>a. h = Some a \<and> a < next_addr w"
    by (simp_all add: sound_def)
  with st show ?thesis by auto
qed

lemma sound_heap_update [simp]: "sound (w\<lparr>heap := h\<rparr>) = sound w"
  by (simp add: sound_def)

lemma set_stack_heap_update:
  "set_stack this st (w\<lparr>heap := h\<rparr>) = (set_stack this st w)\<lparr>heap := h\<rparr>"
  by (simp add: set_stack_def)

lemma sound_stack:
  "sound w \<Longrightarrow> distinct (m_stack w s) \<and>
     (\<forall>h \<in> set (m_stack w s). \<exists>a. h = Some a \<and> a < next_addr w)"
  by (simp add: sound_def)

lemma sound_set_stack:
  assumes "sound w" and "distinct st"
    and "\<forall>h \<in> set st. \<exists>a. h = Some a \<and> a < next_addr w"
  shows "sound (set_stack this st w)"
  using assms by (simp add: sound_def)

lemma sound_tail:
  assumes "sound w" and "m_stack w this = h # rest"
  shows "sound (set_stack this rest w)"
  using sound_stack [OF assms(1), of this] assms
  by (intro sound_set_stack) auto

lemma sound_push:
  assumes "sound w" 
  shows "sound (snd (push this elem w))"
proof (cases "next_addr w < capacity w")
  case False
  with assms show ?thesis by (simp add: push_def make_shared_def)
next
  case True
  let ?w1 = "w\<lparr>heap := (heap w)(next_addr w := elem), next_addr := Suc (next_addr w)\<rparr>"
  have s1: "sound ?w1" using assms by (fastforce simp: sound_def)
  have fresh: "Some (next_addr w) \<notin> set (m_stack w this)"
    using sound_stack [OF assms, of this] by auto
  have "sound (set_stack this (Some (next_addr w) # m_stack w this) ?w1)"
  proof (rule sound_set_stack [OF s1])
    show "distinct (Some (next_addr w) # m_stack w this)"
      using fresh sound_stack [OF assms, of this] by simp
    show "\<forall>h\<in>set (Some (next_addr w) # m_stack w this). \<exists>a. h = Some a \<and> a < next_addr ?w1"
      using sound_stack [OF assms, of this] by fastforce
  qed
  with True show ?thesis by (simp add: push_def make_shared_def)
qed

lemma sound_run_removal:
  assumes "sound w" and "run_removal T this r w = Some (x, w')"
  shows "sound w'"
proof (cases "m_stack w this")
  case Nil
  with assms show ?thesis
    by (cases r)
      (auto simp: waitAndPop_elem_def waitAndPop_def tryPop_elem_def tryPop_def pop_def
        pop_elem_def condVar_wait_eq)
next
  case (Cons h rest)
  with sound_stack [OF assms(1), of this] obtain p where h: "h = Some p" by auto
  from run_removal_top [of w this p rest T r] Cons h assms(2)
  have "w' = set_stack this rest
               (w\<lparr>heap := (case out_loc r of
                              None \<Rightarrow> heap w
                            | Some elem \<Rightarrow> move_assign T elem p (heap w))\<rparr>)"
    by simp
  moreover have "sound (set_stack this rest w)" using assms(1) Cons by (rule sound_tail)
  ultimately show ?thesis by (simp add: set_stack_heap_update)
qed

lemma sound_exec:
  assumes "sound w" and "exec T op w = Some w'"
  shows "sound w'"
proof (cases op)
  case (Remove this r)
  with assms show ?thesis by (auto dest: sound_run_removal)
next
  case (Push this elem)
  with assms show ?thesis by (auto intro: sound_push)
next
  case (Construct this)
  with assms show ?thesis by (auto simp: ThreadSafeStack_def intro: sound_set_stack)
next
  case (Copy_construct this rhs)
  with assms sound_stack [OF assms(1), of rhs] show ?thesis
    by (auto simp: ThreadSafeStack_copy_def intro!: sound_set_stack)
next
  case (Move_construct this rhs)
  with assms sound_stack [OF assms(1), of rhs] show ?thesis
    by (auto simp: ThreadSafeStack_move_def intro!: sound_set_stack)
next
  case (Assign_copy this rhs)
  with assms sound_stack [OF assms(1), of rhs] show ?thesis
    by (auto simp: assign_copy_def intro!: sound_set_stack)
next
  case (Assign_move this rhs)
  with assms sound_stack [OF assms(1), of rhs] show ?thesis
    by (auto simp: assign_move_def intro!: sound_set_stack)
next
  case (Swap this rhs)
  with assms sound_stack [OF assms(1), of rhs] sound_stack [OF assms(1), of this]
  show ?thesis by (auto simp: swap_def intro!: sound_set_stack)
next
  case (Swap_free this rhs)
  with assms sound_stack [OF assms(1), of rhs] sound_stack [OF assms(1), of this]
  show ?thesis by (auto simp: swap_free_def swap_def intro!: sound_set_stack)
qed

lemma sound_initial: "sound (w\<lparr>m_stack := \<lambda>s. []\<rparr>)"
  by (simp add: sound_def)

section \<open>A run of pushes and the removals after it\<close>




lemma full_world_stack: "m_stack full_world s = (if s = 0 then [Some 1, Some 0] else [])"
  by (simp add: full_world_def)

lemma full_world_sound: "sound full_world"
  by (simp add: sound_def full_world_stack) (simp add: full_world_def)

lemma full_world_elements: "elements full_world 0 = [Some 20, Some 10]"
  by (simp add: elements_def deref_def full_world_def)

section \<open>Last in, first out\<close>




text \<open>
  The proviso also covers the object of the top element. With strings, a removal whose
  output argument is the top object itself is a move assignment of that string to itself:
  the caller is handed the empty string where \<^verbatim>\<open>"cd"\<close> was on top.
\<close>

lemma top_object_as_output_argument:
  "elements string_world 0 = [Some ''cd'', Some ''ab''] \<and>
   map_option fst (run_removals string_type 0 [Pop_elem 1, Pop_elem 7] string_world)
     = Some [Some [], Some ''ab'']"
  by (simp add: elements_def deref_def pop_elem_def move_assign_def string_world_def
      string_type_def)

section \<open>Removal from an empty stack\<close>

text \<open>
  C2. On an empty stack both forms of \<^verbatim>\<open>pop\<close> (the one that returns a handle and the one
  with an output argument) throw the runtime error that the specification calls
  EmptyContainer, and nothing changes: the store after the call is the store before it,
  so the stack is still empty.
\<close>

theorem pop_empty_raises:
  "m_stack w this = [] \<Longrightarrow>
     pop this w = (Inl EmptyContainer, w) \<and>
     pop_elem T this elem w = (Inl EmptyContainer, w) \<and>
     m_stack (snd (pop this w)) this = [] \<and>
     m_stack (snd (pop_elem T this elem w)) this = []"
  by (simp add: pop_def pop_elem_def EmptyContainer_def)

theorem pop_empty_raises_witness:
  "pop 3 full_world = (Inl (Runtime_error ''The ThreadSafeStack is empty''), full_world) \<and>
   pop_elem int_type 3 5 full_world =
     (Inl (Runtime_error ''The ThreadSafeStack is empty''), full_world)"
proof -
  have "m_stack full_world 3 = []" by (simp add: full_world_def)
  from pop_empty_raises [OF this, of int_type 5] show ?thesis
    by (simp add: EmptyContainer_def)
qed

text \<open>
  C3. On an empty stack \<^verbatim>\<open>tryPop\<close> with an output argument returns \<^verbatim>\<open>false\<close> and
  \<^verbatim>\<open>tryPop\<close> without one returns the empty handle; neither throws, and the store
  (the stack and the output argument with it) is unchanged.
\<close>

theorem tryPop_empty:
  "m_stack w this = [] \<Longrightarrow>
     tryPop_elem T this elem w = (Inr False, w) \<and>
     tryPop this w = (Inr None, w) \<and>
     heap (snd (tryPop_elem T this elem w)) elem = heap w elem"
  by (simp add: tryPop_def tryPop_elem_def)

theorem tryPop_empty_witness:
  "tryPop_elem int_type 0 5 fresh_world = (Inr False, fresh_world) \<and>
   tryPop 0 fresh_world = (Inr None, fresh_world)"
proof -
  have "m_stack fresh_world 0 = []" by (simp add: fresh_world_def)
  from tryPop_empty [OF this, of int_type 5] show ?thesis by simp
qed

section \<open>A push whose allocation fails\<close>

text \<open>
  C4. When making the handle of the element fails, \<^verbatim>\<open>push\<close> hands that failure to its
  caller and the store is the one before the call; in particular every stack holds the
  elements it held.
\<close>

theorem push_failure_atomic:
  "make_shared elem w = Inl f \<Longrightarrow>
     push this elem w = (Inl f, w) \<and>
     m_stack (snd (push this elem w)) s = m_stack w s \<and>
     elements (snd (push this elem w)) s = elements w s"
  by (simp add: push_def)

theorem push_failure_atomic_witness:
  "make_shared 30 full_world = Inl Bad_alloc \<and>
   push 0 30 full_world = (Inl Bad_alloc, full_world) \<and>
   elements (snd (push 0 30 full_world)) 0 = [Some 20, Some 10]"
proof -
  have m: "make_shared 30 full_world = Inl Bad_alloc"
    by (simp add: make_shared_def full_world_def)
  have e: "elements full_world 0 = [Some 20, Some 10]"
    by (simp add: elements_def deref_def full_world_def)
  from push_failure_atomic [OF m, of 0 0] m e show ?thesis by simp
qed

section \<open>Operations of a stack on itself\<close>

text \<open>
  C5. Copy assignment, move assignment, the member \<^verbatim>\<open>swap\<close> and the free \<^verbatim>\<open>swap\<close> of a
  stack with itself change nothing: the store, and so the stack's handles and their
  order, is the one before the call.
\<close>

theorem self_operations:
  "assign_copy this this w = w \<and> assign_move this this w = w \<and>
   swap this this w = w \<and> swap_free this this w = w"
  by (simp add: assign_copy_def assign_move_def swap_def swap_free_def)

section \<open>No null handle is ever stored\<close>

text \<open>
  C9. A store in which every stack is empty holds no null handle, and every operation of
  the class takes a store without null handles to a store without null handles (\<^verbatim>\<open>push\<close>
  inserts the handle that \<^verbatim>\<open>make_shared\<close> has made). In a store without null handles,
  the handle that \<^verbatim>\<open>waitAndPop()\<close> or \<^verbatim>\<open>pop()\<close> returns is never null, and the handle
  that \<^verbatim>\<open>tryPop()\<close> returns is null exactly when the stack was empty.
\<close>

theorem nonnull_invariant:
  "nonnull (w0\<lparr>m_stack := \<lambda>s. []\<rparr>) \<and>
   (nonnull w \<longrightarrow>
      (\<forall>op w'. exec T op w = Some w' \<longrightarrow> nonnull w') \<and>
      (\<forall>res w'. waitAndPop this w = Some (Inr res, w') \<longrightarrow> res \<noteq> None) \<and>
      (\<forall>res w'. pop this w = (Inr res, w') \<longrightarrow> res \<noteq> None) \<and>
      (\<forall>res w'. tryPop this w = (Inr res, w') \<longrightarrow> (res = None \<longleftrightarrow> m_stack w this = [])))"
proof (intro conjI impI allI)
  show "nonnull (w0\<lparr>m_stack := \<lambda>s. []\<rparr>)" by (simp add: nonnull_def)
next
  fix op w' assume "nonnull w" "exec T op w = Some w'"
  then show "nonnull w'" by (rule nonnull_exec)
next
  fix res w' assume "nonnull w" "waitAndPop this w = Some (Inr res, w')"
  then show "res \<noteq> None" using nonnull_stack [of w this]
    by (cases res) (auto simp: waitAndPop_def condVar_wait_eq split: if_splits list.splits)
next
  fix res w' assume "nonnull w" "pop this w = (Inr res, w')"
  then show "res \<noteq> None" using nonnull_stack [of w this]
    by (cases res) (auto simp: pop_def split: list.splits)
next
  fix res w' assume "nonnull w" "tryPop this w = (Inr res, w')"
  then show "res = None \<longleftrightarrow> m_stack w this = []" using nonnull_stack [of w this]
    by (cases res) (auto simp: tryPop_def split: list.splits)
qed

theorem nonnull_invariant_witness:
  "nonnull full_world \<and>
   exec int_type (Remove 0 (TryPop_elem 7)) full_world
     = Some (set_stack 0 [Some 0] (full_world\<lparr>heap := (heap full_world)(7 := 20)\<rparr>)) \<and>
   nonnull (set_stack 0 [Some 0] (full_world\<lparr>heap := (heap full_world)(7 := 20)\<rparr>)) \<and>
   pop 0 full_world = (Inr (Some 1), set_stack 0 [Some 0] full_world) \<and>
   tryPop 3 full_world = (Inr None, full_world)"
proof -
  have n: "nonnull full_world" by (simp add: nonnull_def full_world_def)
  have e: "exec int_type (Remove 0 (TryPop_elem 7)) full_world
     = Some (set_stack 0 [Some 0] (full_world\<lparr>heap := (heap full_world)(7 := 20)\<rparr>))"
    by (simp add: tryPop_elem_def move_assign_def full_world_def int_type_def)
  have p: "pop 0 full_world = (Inr (Some 1), set_stack 0 [Some 0] full_world)"
    by (simp add: pop_def full_world_def)
  have t: "tryPop 3 full_world = (Inr None, full_world)"
    by (simp add: tryPop_def full_world_def)
  from nonnull_invariant [of fresh_world full_world int_type 0] n e p t show ?thesis by blast
qed

section \<open>Non-blocking removal against the other removals\<close>

text \<open>
  C6, as it stands, fails in one part: that the output argument receives the element. A
  stack of strings holds \<^verbatim>\<open>"cd"\<close> on top of \<^verbatim>\<open>"ab"\<close>, and \<^verbatim>\<open>tryPop\<close> is called with the
  top object itself as the output argument (a caller reaches it through a handle of a
  copy of the stack). \<^verbatim>\<open>elem = std::move(*m_stack.top())\<close> is then a move assignment of the
  string to itself, which leaves it empty: the call returns \<^verbatim>\<open>true\<close> and the output
  argument holds the empty string, not \<^verbatim>\<open>"cd"\<close>.
\<close>

theorem tryPop_refines_counterexample:
  "m_stack string_world 0 = [Some 1, Some 0] \<and>
   heap string_world 1 = ''cd'' \<and>
   fst (tryPop_elem string_type 0 1 string_world) = Inr True \<and>
   heap (snd (tryPop_elem string_type 0 1 string_world)) 1 = [] \<and>
   heap (snd (tryPop_elem string_type 0 1 string_world)) 1 \<noteq> heap string_world 1"
  by (simp add: tryPop_elem_def move_assign_def string_world_def string_type_def)

text \<open>
  C6, amended. On a stack that is not empty, in a store without null handles, \<^verbatim>\<open>tryPop\<close>
  does what the removal step of \<^verbatim>\<open>waitAndPop\<close> and of \<^verbatim>\<open>pop\<close> does. With an output
  argument: it returns \<^verbatim>\<open>true\<close>, the other two return, and all three leave the same
  store, in which the top handle is gone; the output argument holds the value of the
  object that handle owned, unless the output argument is that very object, which then
  holds what the element type's move assignment of an object to itself leaves. Without
  one: all three return the top handle and leave the same store.
\<close>

theorem tryPop_refines:
  assumes "nonnull w" and "m_stack w this \<noteq> []"
  shows "\<exists>p rest w'. m_stack w this = Some p # rest \<and>
           tryPop_elem T this elem w = (Inr True, w') \<and>
           waitAndPop_elem T this elem w = Some (Inr (), w') \<and>
           pop_elem T this elem w = (Inr (), w') \<and>
           m_stack w' this = rest \<and>
           heap w' elem = (if elem = p then self_moved T (heap w p) else heap w p) \<and>
           tryPop this w = (Inr (Some p), set_stack this rest w) \<and>
           waitAndPop this w = Some (Inr (Some p), set_stack this rest w) \<and>
           pop this w = (Inr (Some p), set_stack this rest w)"
proof -
  from assms(2) obtain h rest where st: "m_stack w this = h # rest"
    by (cases "m_stack w this") auto
  with nonnull_stack [OF assms(1), of this] obtain p where h: "h = Some p"
    by (cases h) auto
  let ?w' = "set_stack this rest (w\<lparr>heap := move_assign T elem p (heap w)\<rparr>)"
  have "tryPop_elem T this elem w = (Inr True, ?w')"
    and "waitAndPop_elem T this elem w = Some (Inr (), ?w')"
    and "pop_elem T this elem w = (Inr (), ?w')"
    and "m_stack ?w' this = rest"
    and "heap ?w' elem = (if elem = p then self_moved T (heap w p) else heap w p)"
    and "tryPop this w = (Inr (Some p), set_stack this rest w)"
    and "waitAndPop this w = Some (Inr (Some p), set_stack this rest w)"
    and "pop this w = (Inr (Some p), set_stack this rest w)"
    using st h
    by (simp_all add: tryPop_elem_def waitAndPop_elem_def pop_elem_def tryPop_def
        waitAndPop_def pop_def condVar_wait_eq move_assign_dst)
  with st h show ?thesis by blast
qed

theorem tryPop_refines_witness:
  "tryPop_elem int_type 0 7 full_world
     = (Inr True, set_stack 0 [Some 0] (full_world\<lparr>heap := (heap full_world)(7 := 20)\<rparr>)) \<and>
   waitAndPop_elem int_type 0 7 full_world
     = Some (Inr (), set_stack 0 [Some 0] (full_world\<lparr>heap := (heap full_world)(7 := 20)\<rparr>)) \<and>
   pop_elem int_type 0 7 full_world
     = (Inr (), set_stack 0 [Some 0] (full_world\<lparr>heap := (heap full_world)(7 := 20)\<rparr>)) \<and>
   tryPop 0 full_world = (Inr (Some 1), set_stack 0 [Some 0] full_world) \<and>
   waitAndPop 0 full_world = Some (Inr (Some 1), set_stack 0 [Some 0] full_world) \<and>
   pop 0 full_world = (Inr (Some 1), set_stack 0 [Some 0] full_world)"
proof -
  have n: "nonnull full_world" by (simp add: nonnull_def full_world_stack)
  have e: "m_stack full_world 0 \<noteq> []" by (simp add: full_world_stack)
  from tryPop_refines [OF n e, of int_type 7] obtain p rest w' where
    st: "m_stack full_world 0 = Some p # rest"
    and a: "tryPop_elem int_type 0 7 full_world = (Inr True, w')"
      "waitAndPop_elem int_type 0 7 full_world = Some (Inr (), w')"
      "pop_elem int_type 0 7 full_world = (Inr (), w')"
    and b: "tryPop 0 full_world = (Inr (Some p), set_stack 0 rest full_world)"
      "waitAndPop 0 full_world = Some (Inr (Some p), set_stack 0 rest full_world)"
      "pop 0 full_world = (Inr (Some p), set_stack 0 rest full_world)"
    by blast
  from st have pr: "p = 1" "rest = [Some 0]" by (simp_all add: full_world_stack)
  have "tryPop_elem int_type 0 7 full_world
     = (Inr True, set_stack 0 [Some 0] (full_world\<lparr>heap := (heap full_world)(7 := 20)\<rparr>))"
    by (simp add: tryPop_elem_def move_assign_def full_world_def int_type_def)
  with a have "w' = set_stack 0 [Some 0] (full_world\<lparr>heap := (heap full_world)(7 := 20)\<rparr>)"
    by simp
  with a b pr show ?thesis by simp
qed

section \<open>Copying\<close>

text \<open>
  C7. The copy constructor and the copy assignment give the destination exactly the
  handles of the source, in the same order, so the elements of the destination are those
  of the source and nothing of what the destination held remains; the source, every
  other stack and the element objects are unchanged.
\<close>

theorem copy_duplicates:
  "m_stack (ThreadSafeStack_copy this rhs w) = (m_stack w)(this := m_stack w rhs) \<and>
   heap (ThreadSafeStack_copy this rhs w) = heap w \<and>
   elements (ThreadSafeStack_copy this rhs w) this = elements w rhs \<and>
   elements (ThreadSafeStack_copy this rhs w) rhs = elements w rhs \<and>
   m_stack (assign_copy this rhs w) = (m_stack w)(this := m_stack w rhs) \<and>
   heap (assign_copy this rhs w) = heap w \<and>
   elements (assign_copy this rhs w) this = elements w rhs \<and>
   elements (assign_copy this rhs w) rhs = elements w rhs"
  by (auto simp: ThreadSafeStack_copy_def assign_copy_def elements_def)

theorem copy_duplicates_witness:
  "m_stack (ThreadSafeStack_copy 3 0 full_world) 3 = [Some 1, Some 0] \<and>
   elements (ThreadSafeStack_copy 3 0 full_world) 3 = [Some 20, Some 10] \<and>
   elements (ThreadSafeStack_copy 3 0 full_world) 0 = [Some 20, Some 10] \<and>
   elements (assign_copy 0 3 full_world) 0 = [] \<and>
   elements (assign_copy 0 3 full_world) 3 = []"
proof -
  have "elements full_world 3 = []" by (simp add: elements_def full_world_stack)
  with copy_duplicates [of 3 0 full_world] copy_duplicates [of 0 3 full_world]
  show ?thesis by (simp add: full_world_elements full_world_stack)
qed

section \<open>What a removal leaves alone\<close>

text \<open>
  C10, as it stands, fails in one part: that the elements below the top are unchanged.
  The stack holds 20 on top of 10, and \<^verbatim>\<open>pop\<close> is called with the object that holds 10 as
  the output argument (a caller reaches it through a handle of a copy of the stack).
  \<^verbatim>\<open>elem = std::move(*m_stack.top())\<close> overwrites that object: the call returns, and the one
  element that remains is 20, not 10.
\<close>

theorem removal_frame_counterexample:
  "m_stack full_world 0 = [Some 1, Some 0] \<and>
   elements full_world 0 = [Some 20, Some 10] \<and>
   fst (pop_elem int_type 0 0 full_world) = Inr () \<and>
   m_stack (snd (pop_elem int_type 0 0 full_world)) 0 = [Some 0] \<and>
   elements (snd (pop_elem int_type 0 0 full_world)) 0 = [Some 20] \<and>
   elements (snd (pop_elem int_type 0 0 full_world)) 0 \<noteq> tl (elements full_world 0)"
  by (simp add: elements_def deref_def pop_elem_def move_assign_def full_world_def
      int_type_def)

text \<open>
  C10, amended. In a store where handles own distinct allocated objects, a removal of any
  form from a stack that is not empty returns and removes the top handle only: the stack
  keeps its other handles in their order and is one shorter, the other stacks are
  unchanged, and no object is written but the output argument and the object that was
  removed (none at all by the forms that return a handle). The elements that remain are
  the elements that were below the top, provided that the output argument is not the
  object of one of them.
\<close>

theorem removal_frame:
  assumes "sound w" and "m_stack w this \<noteq> []"
  shows "\<exists>p w'. hd (m_stack w this) = Some p \<and>
           run_removal T this r w =
             Some (Some (if out_loc r = Some p then self_moved T (heap w p) else heap w p), w') \<and>
           m_stack w' this = tl (m_stack w this) \<and>
           Suc (length (m_stack w' this)) = length (m_stack w this) \<and>
           (\<forall>s. s \<noteq> this \<longrightarrow> m_stack w' s = m_stack w s) \<and>
           (\<forall>a. Some a \<noteq> out_loc r \<and> a \<noteq> p \<longrightarrow> heap w' a = heap w a) \<and>
           (out_loc r = None \<longrightarrow> heap w' = heap w) \<and>
           (out_loc r \<notin> set (tl (m_stack w this)) \<longrightarrow>
              elements w' this = tl (elements w this))"
proof -
  from sound_top [OF assms] obtain p rest
    where st: "m_stack w this = Some p # rest" and p: "Some p \<notin> set rest" by blast
  let ?w' = "set_stack this rest
               (w\<lparr>heap := (case out_loc r of
                              None \<Rightarrow> heap w
                            | Some elem \<Rightarrow> move_assign T elem p (heap w))\<rparr>)"
  have run: "run_removal T this r w =
      Some (Some (if out_loc r = Some p then self_moved T (heap w p) else heap w p), ?w')"
    by (rule run_removal_top [OF st])
  have frame: "\<forall>a. Some a \<noteq> out_loc r \<and> a \<noteq> p \<longrightarrow> heap ?w' a = heap w a"
    by (auto simp: move_assign_other split: option.splits)
  have same: "out_loc r = None \<longrightarrow> heap ?w' = heap w" by simp
  have others: "\<forall>s. s \<noteq> this \<longrightarrow> m_stack ?w' s = m_stack w s" by simp
  have here: "m_stack ?w' this = rest" by simp
  have elems: "elements ?w' this = tl (elements w this)"
    if out: "out_loc r \<notin> set (tl (m_stack w this))"
  proof -
    have "deref ?w' h = deref w h" if "h \<in> set rest" for h
    proof (cases h)
      case None
      then show ?thesis by (simp add: deref_def)
    next
      case (Some a)
      with that p out st have "Some a \<noteq> out_loc r" "a \<noteq> p" by auto
      with frame Some show ?thesis by (simp add: deref_def)
    qed
    then have "map (deref ?w') rest = map (deref w) rest" by simp
    with st show ?thesis by (simp add: elements_def)
  qed
  from st run frame same others here elems show ?thesis
    by (intro exI [of _ p] exI [of _ ?w']) simp
qed

theorem removal_frame_witness:
  "sound full_world \<and> m_stack full_world 0 \<noteq> [] \<and>
   (\<exists>w'. run_removal int_type 0 (TryPop_elem 7) full_world = Some (Some 20, w') \<and>
         m_stack w' 0 = [Some 0] \<and> elements w' 0 = [Some 10] \<and> m_stack w' 3 = [])"
proof -
  have e: "m_stack full_world 0 \<noteq> []" by (simp add: full_world_stack)
  from removal_frame [OF full_world_sound e, of int_type "TryPop_elem 7"] obtain p w' where
    p: "hd (m_stack full_world 0) = Some p"
    and r: "run_removal int_type 0 (TryPop_elem 7) full_world =
      Some (Some (if out_loc (TryPop_elem 7) = Some p
                  then self_moved int_type (heap full_world p) else heap full_world p), w')"
    and s: "m_stack w' 0 = tl (m_stack full_world 0)"
    and o: "\<forall>s. s \<noteq> 0 \<longrightarrow> m_stack w' s = m_stack full_world s"
    and el: "out_loc (TryPop_elem 7) \<notin> set (tl (m_stack full_world 0)) \<longrightarrow>
             elements w' 0 = tl (elements full_world 0)"
    by blast
  from p have p1: "p = 1" by (simp add: full_world_stack)
  then have "heap full_world p = 20" by (simp add: full_world_def)
  with r p1 have "run_removal int_type 0 (TryPop_elem 7) full_world = Some (Some 20, w')"
    by simp
  with s o el full_world_sound e show ?thesis
    by (auto simp: full_world_stack full_world_elements)
qed

end
